theory Spec2Isabelle
  imports Complex_Main "HOL-Library.Word"
begin

section \<open>Strings and numbers of the source language\<close>

text \<open>
  The program is TypeScript. A string is a sequence of UTF-16 code units, and every
  operation the client uses (\<^verbatim>\<open>split\<close>, \<^verbatim>\<open>includes\<close>, \<^verbatim>\<open>trim\<close>, regular expressions
  without the \<^verbatim>\<open>u\<close> flag) works on code units, so a string is a list of 16-bit words.
  Non-ASCII literals of the source are written as their code units.

  Numbers are IEEE doubles in the source. They are modelled as exact rationals: the
  numbers the client computes with are short decimal literals, and rounding, NaN and
  infinities are outside the model.
\<close>

type_synonym jschar = "16 word"
type_synonym jsstring = "jschar list"

definition ascii :: "string \<Rightarrow> jsstring" where
  "ascii s = map of_char s"

text \<open>\<^verbatim>\<open>String.prototype.includes\<close>: does the needle occur as a contiguous substring?\<close>

fun startsWith :: "jsstring \<Rightarrow> jsstring \<Rightarrow> bool" where
  "startsWith s [] = True"
| "startsWith [] (p # ps) = False"
| "startsWith (c # cs) (p # ps) = (c = p \<and> startsWith cs ps)"

fun includesStr :: "jsstring \<Rightarrow> jsstring \<Rightarrow> bool" where
  "includesStr [] needle = startsWith [] needle"
| "includesStr (c # cs) needle = (startsWith (c # cs) needle \<or> includesStr cs needle)"

text \<open>
  White space as \<^verbatim>\<open>\s\<close> and \<^verbatim>\<open>trim\<close> understand it: the WhiteSpace and LineTerminator
  code points of ECMAScript.
\<close>

definition isSpace :: "jschar \<Rightarrow> bool" where
  "isSpace c \<longleftrightarrow>
     c = 0x09 \<or> c = 0x0A \<or> c = 0x0B \<or> c = 0x0C \<or> c = 0x0D \<or> c = 0x20 \<or>
     c = 0xA0 \<or> c = 0x1680 \<or> (0x2000 \<le> c \<and> c \<le> 0x200A) \<or>
     c = 0x2028 \<or> c = 0x2029 \<or> c = 0x202F \<or> c = 0x205F \<or> c = 0x3000 \<or> c = 0xFEFF"

definition isDigit :: "jschar \<Rightarrow> bool" where
  "isDigit c \<longleftrightarrow> 0x30 \<le> c \<and> c \<le> 0x39"

definition trim :: "jsstring \<Rightarrow> jsstring" where
  "trim s = rev (dropWhile isSpace (rev (dropWhile isSpace s)))"

text \<open>Decimal rendering of an integer, as a template literal renders an integral number.\<close>

definition digitChar :: "nat \<Rightarrow> jschar" where
  "digitChar d = of_nat (48 + d)"

fun showNat :: "nat \<Rightarrow> jsstring" where
  "showNat n = (if n < 10 then [digitChar n] else showNat (n div 10) @ [digitChar (n mod 10)])"

declare showNat.simps [simp del]

definition showInt :: "int \<Rightarrow> jsstring" where
  "showInt i = (if i < 0 then ascii ''-'' @ showNat (nat (- i)) else showNat (nat i))"

section \<open>Data model (src/types.ts)\<close>

datatype Language = Ja | En | Auto

datatype AnalysisType = Describe | Ocr | Classify | DetectObjects

datatype DetailLevel = Brief | Standard | Detailed

record GeminiAnalysisConfig =
  model :: jsstring
  temperature :: rat
  maxOutputTokens :: rat
  language :: Language

record ImageAnalysisOptions =
  analysisType :: AnalysisType
  detailLevel :: DetailLevel
  includeConfidence :: bool
  extractColors :: bool
  detectFaces :: bool
  readQRCodes :: bool
  includeMetadata :: bool

text \<open>
  \<^verbatim>\<open>Partial<GeminiAnalysisConfig>\<close>: every field may be absent. A property that is present
  with the value \<^verbatim>\<open>undefined\<close> is not a value of the field's type and is not modelled.
\<close>

record PartialGeminiAnalysisConfig =
  p_model :: "jsstring option"
  p_temperature :: "rat option"
  p_maxOutputTokens :: "rat option"
  p_language :: "Language option"

datatype ErrorCode =
    GEMINI_AUTH_ERROR
  | IMAGE_TOO_LARGE
  | ANALYSIS_TIMEOUT
  | INVALID_IMAGE_FORMAT
  | RATE_LIMIT_EXCEEDED
  | FILE_NOT_FOUND
  | NETWORK_ERROR

text \<open>The \<^verbatim>\<open>details\<close> object that the child-process mapping attaches to an error.\<close>

record ProcessDetails =
  d_stderr :: jsstring
  d_stdout :: jsstring
  d_code :: "int option"

record GeminiMCPError =
  code :: ErrorCode
  message :: jsstring
  details :: "ProcessDetails option"

section \<open>Compiled-in defaults (constants/defaults)\<close>

definition DEFAULT_GEMINI_CONFIG :: GeminiAnalysisConfig where
  "DEFAULT_GEMINI_CONFIG =
     \<lparr> model = ascii ''gemini-2.5-pro'', temperature = 7 / 10,
       maxOutputTokens = 2048, language = Ja \<rparr>"

definition DEFAULT_MAX_CONCURRENT_REQUESTS :: nat where
  "DEFAULT_MAX_CONCURRENT_REQUESTS = 3"

definition DEFAULT_CONFIDENCE_SCORE :: rat where
  "DEFAULT_CONFIDENCE_SCORE = 8 / 10"

section \<open>Configuration updates\<close>

text \<open>
  \<^verbatim>\<open>updateConfig(newConfig) { this.config = { ...this.config, ...newConfig }; }\<close>
  The object spread copies the current fields and then every field present in the update.
\<close>

definition spreadField :: "'a \<Rightarrow> 'a option \<Rightarrow> 'a" where
  "spreadField old new = (case new of None \<Rightarrow> old | Some v \<Rightarrow> v)"

definition updateConfig :: "GeminiAnalysisConfig \<Rightarrow> PartialGeminiAnalysisConfig \<Rightarrow> GeminiAnalysisConfig" where
  "updateConfig config newConfig =
     \<lparr> model = spreadField (model config) (p_model newConfig),
       temperature = spreadField (temperature config) (p_temperature newConfig),
       maxOutputTokens = spreadField (maxOutputTokens config) (p_maxOutputTokens newConfig),
       language = spreadField (language config) (p_language newConfig) \<rparr>"

definition emptyPartial :: PartialGeminiAnalysisConfig where
  "emptyPartial = \<lparr> p_model = None, p_temperature = None, p_maxOutputTokens = None, p_language = None \<rparr>"

section \<open>Command Builder\<close>

subsection \<open>Instruction text\<close>















subsection \<open>Argument list\<close>

text \<open>
  \<^verbatim>\<open>buildGeminiCommand\<close> starts from the five fixed arguments and pushes a flag and its
  value for each parameter that is not identical to the compiled-in default.
  \<^verbatim>\<open>Number.prototype.toString\<close> is a built-in of the language, taken as the
  parameter \<open>toString\<close>.
\<close>

definition buildGeminiCommand ::
  "(rat \<Rightarrow> jsstring) \<Rightarrow> GeminiAnalysisConfig \<Rightarrow> jsstring \<Rightarrow> jsstring \<Rightarrow> jsstring list" where
  "buildGeminiCommand toString config prompt imagePath =
     (let args = [ascii ''@google-ai/generative-ai-cli'',
                  ascii ''--prompt'', prompt,
                  ascii ''--file'', imagePath];
          args = (if model config \<noteq> model DEFAULT_GEMINI_CONFIG
                  then args @ [ascii ''--model'', model config] else args);
          args = (if temperature config \<noteq> temperature DEFAULT_GEMINI_CONFIG
                  then args @ [ascii ''--temperature'', toString (temperature config)] else args);
          args = (if maxOutputTokens config \<noteq> maxOutputTokens DEFAULT_GEMINI_CONFIG
                  then args @ [ascii ''--max-tokens'', toString (maxOutputTokens config)] else args)
      in args)"

section \<open>Process Runner: classification of a failed exit\<close>

definition msg_authenticationFailed :: jsstring where
  "msg_authenticationFailed =
     ascii ''Gemini API'' @ [0x8A8D, 0x8A3C, 0x306B, 0x5931, 0x6557, 0x3057, 0x307E, 0x3057, 0x305F]"

definition msg_rateLimitExceeded :: jsstring where
  "msg_rateLimitExceeded =
     [0x30EC, 0x30FC, 0x30C8, 0x5236, 0x9650, 0x306B, 0x9054, 0x3057, 0x307E, 0x3057, 0x305F]"

definition msg_networkError_prefix :: jsstring where
  "msg_networkError_prefix =
     [0x30CD, 0x30C3, 0x30C8, 0x30EF, 0x30FC, 0x30AF, 0x30A8, 0x30E9, 0x30FC] @ ascii '': ''"

definition msg_cliExecutionError :: jsstring where
  "msg_cliExecutionError =
     ascii ''Gemini CLI'' @ [0x5B9F, 0x884C, 0x30A8, 0x30E9, 0x30FC] @ ascii '' (code: ''"

text \<open>The error factory \<^verbatim>\<open>createGeminiErrors\<close>, for the three constructors used here.\<close>

definition authenticationFailed :: "ProcessDetails option \<Rightarrow> GeminiMCPError" where
  "authenticationFailed d = \<lparr> code = GEMINI_AUTH_ERROR, message = msg_authenticationFailed, details = d \<rparr>"

definition rateLimitExceeded :: "ProcessDetails option \<Rightarrow> GeminiMCPError" where
  "rateLimitExceeded d = \<lparr> code = RATE_LIMIT_EXCEEDED, message = msg_rateLimitExceeded, details = d \<rparr>"

definition networkError :: "jsstring \<Rightarrow> ProcessDetails option \<Rightarrow> GeminiMCPError" where
  "networkError msg d = \<lparr> code = NETWORK_ERROR, message = msg_networkError_prefix @ msg, details = d \<rparr>"

text \<open>How a template literal renders \<^verbatim>\<open>code: number | null\<close>.\<close>

definition showCode :: "int option \<Rightarrow> jsstring" where
  "showCode c = (case c of None \<Rightarrow> ascii ''null'' | Some n \<Rightarrow> showInt n)"

definition mapChildProcessError :: "jsstring \<Rightarrow> jsstring \<Rightarrow> int option \<Rightarrow> GeminiMCPError" where
  "mapChildProcessError stderr stdout c =
     (let d = Some \<lparr> d_stderr = stderr, d_stdout = stdout, d_code = c \<rparr> in
      if includesStr stderr (ascii ''Authentication failed'') \<or> includesStr stderr (ascii ''Unauthorized'')
      then authenticationFailed d
      else if includesStr stderr (ascii ''Rate limit'') \<or> includesStr stderr (ascii ''quota'')
      then rateLimitExceeded d
      else networkError (msg_cliExecutionError @ showCode c @ ascii '')'') d)"

text \<open>
  The \<^verbatim>\<open>close\<close> handler of \<^verbatim>\<open>executeGeminiCommand\<close>: exit status 0 resolves with the
  trimmed standard output, every other status (a number or \<^verbatim>\<open>null\<close>) rejects with the
  mapped error. The two buffers are what the data handlers accumulated.
\<close>

definition onClose :: "jsstring \<Rightarrow> jsstring \<Rightarrow> int option \<Rightarrow> GeminiMCPError + jsstring" where
  "onClose stdout stderr c =
     (if c = Some 0 then Inr (trim stdout) else Inl (mapChildProcessError stderr stdout c))"

section \<open>Result Extractor\<close>

subsection \<open>Numbers that may be NaN, and \<^verbatim>\<open>parseFloat\<close>\<close>

datatype number = NaN | Num rat

fun numGreater :: "number \<Rightarrow> rat \<Rightarrow> bool" where
  "numGreater NaN b = False"
| "numGreater (Num a) b = (a > b)"

fun numDiv :: "number \<Rightarrow> rat \<Rightarrow> number" where
  "numDiv NaN b = NaN"
| "numDiv (Num a) b = Num (a / b)"

definition digitVal :: "jschar \<Rightarrow> nat" where
  "digitVal c = unat c - 48"

text \<open>The value of a digit string read as a decimal integer, most significant digit first.\<close>

definition decimalValue :: "jsstring \<Rightarrow> nat" where
  "decimalValue ds = foldl (\<lambda>acc c. 10 * acc + digitVal c) 0 ds"

text \<open>
  \<^verbatim>\<open>parseFloat\<close> on an argument that may be \<^verbatim>\<open>undefined\<close>: leading white space is skipped,
  then the longest prefix of the form digits, optionally followed by a period and more
  digits, is read; without a leading digit the result is NaN. Signs, exponents, a leading
  period and \<^verbatim>\<open>Infinity\<close> are not modelled: the only argument the client passes is a
  capture of \<^verbatim>\<open>\d+(?:\.\d+)?\<close>.
\<close>

definition parseFloat :: "jsstring option \<Rightarrow> number" where
  "parseFloat arg =
     (case arg of
        None \<Rightarrow> NaN
      | Some s \<Rightarrow>
          (let t = dropWhile isSpace s;
               ip = takeWhile isDigit t;
               r = dropWhile isDigit t
           in if ip = [] then NaN
              else (case r of
                      c # cs \<Rightarrow>
                        if c = 0x2E
                        then (let fp = takeWhile isDigit cs
                              in Num (of_nat (decimalValue ip) + of_nat (decimalValue fp) / 10 ^ length fp))
                        else Num (of_nat (decimalValue ip))
                    | [] \<Rightarrow> Num (of_nat (decimalValue ip)))))"

subsection \<open>Regular expressions of the client\<close>

text \<open>
  \<^verbatim>\<open>String.prototype.match\<close> with a regular expression without the \<^verbatim>\<open>g\<close> flag tries the
  pattern at every start position from left to right and returns the first match as an
  array: element 0 is the matched text, element 1 the first capture group
  (\<^verbatim>\<open>undefined\<close>, here \<open>None\<close>, for a group that took no part in the match); no match
  is \<^verbatim>\<open>null\<close>, here \<open>None\<close>. Each pattern is embedded as a function that matches it at
  the start of its argument and returns the matched text and the capture.
\<close>

type_synonym RegExpMatchArray = "jsstring option list"

fun regexSearch :: "(jsstring \<Rightarrow> 'a option) \<Rightarrow> jsstring \<Rightarrow> 'a option" where
  "regexSearch m [] = m []"
| "regexSearch m (c # cs) = (case m (c # cs) of Some r \<Rightarrow> Some r | None \<Rightarrow> regexSearch m cs)"

definition toMatchArray :: "jsstring \<times> jsstring \<Rightarrow> RegExpMatchArray" where
  "toMatchArray r = [Some (fst r), Some (snd r)]"

text \<open>Reading element \<open>i\<close> of a match array; out of range is \<^verbatim>\<open>undefined\<close>.\<close>

definition matchGroup :: "RegExpMatchArray \<Rightarrow> nat \<Rightarrow> jsstring option" where
  "matchGroup m i = (if i < length m then m ! i else None)"

text \<open>Calling a method on \<^verbatim>\<open>undefined\<close> throws a TypeError.\<close>

datatype JsError = TypeError

fun stripPrefix :: "jsstring \<Rightarrow> jsstring \<Rightarrow> jsstring option" where
  "stripPrefix [] s = Some s"
| "stripPrefix (p # ps) [] = None"
| "stripPrefix (p # ps) (c # cs) = (if p = c then stripPrefix ps cs else None)"

text \<open>
  The character classes of the patterns: BULLET is hyphen, asterisk or U+2022; COLON is the
  full-width colon U+FF1A or the ASCII colon; COMMA is the ASCII comma or the ideographic
  comma U+3001; PERCENT is the ASCII or the full-width percent sign U+FF05; \<^verbatim>\<open>[^\n]\<close> is
  every code unit but the line feed.
\<close>

definition isBullet :: "jschar \<Rightarrow> bool" where
  "isBullet c \<longleftrightarrow> c = 0x2D \<or> c = 0x2A \<or> c = 0x2022"

definition isColon :: "jschar \<Rightarrow> bool" where
  "isColon c \<longleftrightarrow> c = 0xFF1A \<or> c = 0x3A"

definition isComma :: "jschar \<Rightarrow> bool" where
  "isComma c \<longleftrightarrow> c = 0x2C \<or> c = 0x3001"

definition notNewline :: "jschar \<Rightarrow> bool" where
  "notNewline c \<longleftrightarrow> c \<noteq> 0x0A"

text \<open>
  \<^verbatim>\<open>/^[BULLET]\s+/\<close> and \<^verbatim>\<open>/^\d+\.\s+/\<close>, anchored at the start of the line. The result is
  what follows the match. The quantifiers are greedy; as the classes that follow each
  other are disjoint, the longest run is the only one with which the pattern can match.
\<close>

definition matchBullet :: "jsstring \<Rightarrow> jsstring option" where
  "matchBullet line =
     (case line of
        [] \<Rightarrow> None
      | c # cs \<Rightarrow> if isBullet c \<and> takeWhile isSpace cs \<noteq> [] then Some (dropWhile isSpace cs) else None)"

definition matchNumbered :: "jsstring \<Rightarrow> jsstring option" where
  "matchNumbered line =
     (if takeWhile isDigit line = [] then None
      else (case dropWhile isDigit line of
              [] \<Rightarrow> None
            | c # cs \<Rightarrow> if c = 0x2E \<and> takeWhile isSpace cs \<noteq> [] then Some (dropWhile isSpace cs) else None))"

text \<open>\<^verbatim>\<open>line.replace(re, '')\<close> for an anchored pattern: the match is cut off, or nothing changes.\<close>

definition replaceBullet :: "jsstring \<Rightarrow> jsstring" where
  "replaceBullet line = (case matchBullet line of Some r \<Rightarrow> r | None \<Rightarrow> line)"

definition replaceNumbered :: "jsstring \<Rightarrow> jsstring" where
  "replaceNumbered line = (case matchNumbered line of Some r \<Rightarrow> r | None \<Rightarrow> line)"

text \<open>
  \<^verbatim>\<open>\s*([^\n]+)\<close>, the tail of the category and tag patterns. \<^verbatim>\<open>\s\<close> also matches a line
  feed, so the engine first lets \<^verbatim>\<open>\s*\<close> take the character and match the rest, and on
  failure gives the character back and starts the capture here.
\<close>

definition lineRun :: "jsstring \<Rightarrow> jsstring" where
  "lineRun s = takeWhile notNewline s"

fun spacesThenLine :: "jsstring \<Rightarrow> (jsstring \<times> jsstring) option" where
  "spacesThenLine [] = None"
| "spacesThenLine (c # cs) =
     (case (if isSpace c then spacesThenLine cs else None) of
        Some r \<Rightarrow> Some (c # fst r, snd r)
      | None \<Rightarrow> if lineRun (c # cs) = [] then None else Some (lineRun (c # cs), lineRun (c # cs)))"

text \<open>
  \<^verbatim>\<open>/LABEL[COLON]\s*([^\n]+)/i\<close> at the start of \<open>s\<close>. No character of the labels or of
  the classes has a case variant, so the \<^verbatim>\<open>i\<close> flag changes nothing.
\<close>

definition labelledValueAt :: "jsstring \<Rightarrow> jsstring \<Rightarrow> (jsstring \<times> jsstring) option" where
  "labelledValueAt label s =
     (case stripPrefix label s of
        None \<Rightarrow> None
      | Some [] \<Rightarrow> None
      | Some (c # cs) \<Rightarrow>
          if isColon c
          then (case spacesThenLine cs of
                  None \<Rightarrow> None
                | Some r \<Rightarrow> Some (label @ c # fst r, snd r))
          else None)"

definition label_category :: jsstring where
  "label_category = [0x30AB, 0x30C6, 0x30B4, 0x30EA]"

definition label_tag :: jsstring where
  "label_tag = [0x30BF, 0x30B0]"

definition label_confidence :: jsstring where
  "label_confidence = [0x4FE1, 0x983C, 0x5EA6]"

definition label_color :: jsstring where
  "label_color = [0x8272]"

definition matchCategory :: "jsstring \<Rightarrow> RegExpMatchArray option" where
  "matchCategory text = map_option toMatchArray (regexSearch (labelledValueAt label_category) text)"

definition matchTag :: "jsstring \<Rightarrow> RegExpMatchArray option" where
  "matchTag text = map_option toMatchArray (regexSearch (labelledValueAt label_tag) text)"

text \<open>
  \<^verbatim>\<open>/LABEL[COLON]?\s*(\d+(?:\.\d+)?)[PERCENT]?/\<close> at the start of \<open>s\<close>, for the
  confidence label. The optional colon, the white space and the digits are taken
  greedily; a shorter choice cannot help, since a colon is neither white space nor a
  digit and white space is not a digit. The fraction is taken when a period and at least
  one digit follow.
\<close>

definition isPercent :: "jschar \<Rightarrow> bool" where
  "isPercent c \<longleftrightarrow> c = 0x25 \<or> c = 0xFF05"

definition optionalChar :: "(jschar \<Rightarrow> bool) \<Rightarrow> jsstring \<Rightarrow> jsstring" where
  "optionalChar cls s = (case s of [] \<Rightarrow> [] | c # cs \<Rightarrow> if cls c then [c] else [])"

definition fractionPart :: "jsstring \<Rightarrow> jsstring" where
  "fractionPart s =
     (case s of
        [] \<Rightarrow> []
      | c # cs \<Rightarrow> if c = 0x2E \<and> takeWhile isDigit cs \<noteq> [] then c # takeWhile isDigit cs else [])"

definition confidenceAt :: "jsstring \<Rightarrow> (jsstring \<times> jsstring) option" where
  "confidenceAt s =
     (case stripPrefix label_confidence s of
        None \<Rightarrow> None
      | Some r0 \<Rightarrow>
          (let colon = optionalChar isColon r0;
               r1 = drop (length colon) r0;
               spaces = takeWhile isSpace r1;
               r2 = dropWhile isSpace r1;
               ip = takeWhile isDigit r2;
               r3 = dropWhile isDigit r2;
               capture = ip @ fractionPart r3;
               r4 = drop (length (fractionPart r3)) r3;
               percent = optionalChar isPercent r4
           in if ip = [] then None
              else Some (label_confidence @ colon @ spaces @ capture @ percent, capture)))"

definition matchConfidence :: "jsstring \<Rightarrow> RegExpMatchArray option" where
  "matchConfidence text = map_option toMatchArray (regexSearch confidenceAt text)"

text \<open>\<^verbatim>\<open>/LABEL[COLON]([^\n]+)/i\<close> at the start of \<open>s\<close>, for the colour label.\<close>

definition colorAt :: "jsstring \<Rightarrow> (jsstring \<times> jsstring) option" where
  "colorAt s =
     (case stripPrefix label_color s of
        None \<Rightarrow> None
      | Some [] \<Rightarrow> None
      | Some (c # cs) \<Rightarrow>
          if isColon c \<and> lineRun cs \<noteq> [] then Some (label_color @ c # lineRun cs, lineRun cs)
          else None)"

definition matchColor :: "jsstring \<Rightarrow> RegExpMatchArray option" where
  "matchColor text = map_option toMatchArray (regexSearch colorAt text)"

subsection \<open>Splitting\<close>

text \<open>
  \<^verbatim>\<open>split\<close> on a one-character separator (a string or a character class): the pieces
  between the separators, empty pieces included; the empty string gives one empty piece.
\<close>

fun splitOn :: "(jschar \<Rightarrow> bool) \<Rightarrow> jsstring \<Rightarrow> jsstring list" where
  "splitOn sep [] = [[]]"
| "splitOn sep (c # cs) =
     (if sep c then [] # splitOn sep cs
      else (case splitOn sep cs of
              [] \<Rightarrow> [[c]]
            | piece # pieces \<Rightarrow> (c # piece) # pieces))"

definition isNewline :: "jschar \<Rightarrow> bool" where
  "isNewline c \<longleftrightarrow> c = 0x0A"

subsection \<open>The four extractors\<close>

definition isListItem :: "jsstring \<Rightarrow> bool" where
  "isListItem line \<longleftrightarrow> matchBullet line \<noteq> None \<or> matchNumbered line \<noteq> None"

definition extractObjectsList :: "jsstring \<Rightarrow> jsstring list" where
  "extractObjectsList text =
     (let lines = splitOn isNewline text;
          objects = filter (\<lambda>item. length item > 0)
                      (map (\<lambda>line. trim (replaceNumbered (replaceBullet line)))
                         (filter isListItem lines))
      in objects)"

text \<open>
  \<^verbatim>\<open>categories.push(...m[1].split(/[COMMA]/).map(c => c.trim()))\<close>, guarded by the match.
\<close>

definition pushSplit :: "RegExpMatchArray option \<Rightarrow> jsstring list \<Rightarrow> JsError + jsstring list" where
  "pushSplit matches categories =
     (case matches of
        None \<Rightarrow> Inr categories
      | Some m \<Rightarrow>
          (case matchGroup m 1 of
             None \<Rightarrow> Inl TypeError
           | Some g \<Rightarrow> Inr (categories @ map trim (splitOn isComma g))))"

definition extractCategories :: "jsstring \<Rightarrow> JsError + jsstring list" where
  "extractCategories text =
     (case pushSplit (matchCategory text) [] of
        Inl e \<Rightarrow> Inl e
      | Inr categories \<Rightarrow> pushSplit (matchTag text) categories)"

definition extractConfidenceScore :: "jsstring \<Rightarrow> number" where
  "extractConfidenceScore text =
     (case matchConfidence text of
        Some m \<Rightarrow>
          (let score = parseFloat (matchGroup m 1)
           in if numGreater score 1 then numDiv score 100 else score)
      | None \<Rightarrow> Num DEFAULT_CONFIDENCE_SCORE)"

record ColorInfo =
  color :: jsstring
  percentage :: rat
  rgb :: "nat \<times> nat \<times> nat"

definition basicColors :: "jsstring list" where
  "basicColors =
     [[0x8D64], [0x9752], [0x7DD1], [0x9EC4], [0x9ED2], [0x767D], [0x8336], [0x7D2B],
      [0x30AA, 0x30EC, 0x30F3, 0x30B8]]"

definition extractColorInfo :: "jsstring \<Rightarrow> JsError + ColorInfo list" where
  "extractColorInfo text =
     (case matchColor text of
        None \<Rightarrow> Inr []
      | Some m \<Rightarrow>
          (case matchGroup m 1 of
             None \<Rightarrow> Inl TypeError
           | Some colorText \<Rightarrow>
               Inr (foldl (\<lambda>colors c.
                             if includesStr colorText c
                             then colors @ [\<lparr> color = c, percentage = 1 / 10, rgb = (0, 0, 0) \<rparr>]
                             else colors)
                      [] basicColors)))"

subsection \<open>Assembling the result\<close>

record ImageMetadata =
  filename :: jsstring
  size_bytes :: nat
  dimensions :: "nat \<times> nat"
  format :: jsstring
  exif :: "(jsstring \<times> jsstring) list"

record AnalysisResult =
  description :: jsstring
  objects :: "jsstring list"
  text_field :: jsstring
  metadata :: ImageMetadata
  confidence :: number
  colors :: "ColorInfo list"
  processingTime :: nat

text \<open>
  \<^verbatim>\<open>parseAnalysisResult\<close>, after the metadata collaborator has answered with \<open>md\<close>. The
  field \<^verbatim>\<open>text\<close> of the source is \<open>text_field\<close> and the field \<^verbatim>\<open>size\<close> of the metadata is
  \<open>size_bytes\<close>. The literal \<^verbatim>\<open>0.8\<close> of the base record is written as in the source.
\<close>

definition parseAnalysisResult ::
  "jsstring \<Rightarrow> ImageMetadata \<Rightarrow> ImageAnalysisOptions \<Rightarrow> nat \<Rightarrow> JsError + AnalysisResult" where
  "parseAnalysisResult rawResult md options time =
     (let result = \<lparr> description = rawResult, objects = [], text_field = [], metadata = md,
                      confidence = Num (8 / 10), colors = [], processingTime = time \<rparr>;
          step1 = (case analysisType options of
                     Ocr \<Rightarrow> Inr (result\<lparr>text_field := rawResult\<rparr>)
                   | DetectObjects \<Rightarrow> Inr (result\<lparr>objects := extractObjectsList rawResult\<rparr>)
                   | Classify \<Rightarrow>
                       (case extractCategories rawResult of
                          Inl e \<Rightarrow> Inl e
                        | Inr cats \<Rightarrow> Inr (result\<lparr>objects := cats\<rparr>))
                   | Describe \<Rightarrow> Inr result)
      in case step1 of
           Inl e \<Rightarrow> Inl e
         | Inr result \<Rightarrow>
             (let result = (if includeConfidence options
                            then result\<lparr>confidence := extractConfidenceScore rawResult\<rparr>
                            else result)
              in if extractColors options
                 then (case extractColorInfo rawResult of
                         Inl e \<Rightarrow> Inl e
                       | Inr cs \<Rightarrow> Inr (result\<lparr>colors := cs\<rparr>))
                 else Inr result))"

section \<open>Batch Orchestrator\<close>

text \<open>
  \<^verbatim>\<open>getMaxConcurrentRequests()\<close> returns the compiled-in constant. The loop is modelled for
  any window size, with the value the client reads passed in.
\<close>

definition getMaxConcurrentRequests :: nat where
  "getMaxConcurrentRequests = DEFAULT_MAX_CONCURRENT_REQUESTS"

text \<open>
  What a run of \<^verbatim>\<open>batchAnalyze\<close> does: the list it returns, the errors it writes with
  \<^verbatim>\<open>console.error\<close>, and the windows it hands to \<^verbatim>\<open>analyzeImage\<close>, one list of paths per
  iteration of the loop.
\<close>

record BatchState =
  results :: "AnalysisResult list"
  logged :: "GeminiMCPError list"
  dispatched :: "jsstring list list"

text \<open>\<^verbatim>\<open>Array.prototype.slice(i, j)\<close> for \<open>i \<le> j\<close>: the end is clamped to the length.\<close>

definition sliceArray :: "'a list \<Rightarrow> nat \<Rightarrow> nat \<Rightarrow> 'a list" where
  "sliceArray xs i j = take (j - i) (drop i xs)"

text \<open>
  \<^verbatim>\<open>Promise.allSettled\<close> answers with one settled outcome per promise, in the order of the
  promises. The outcome of the call made for the item at position \<open>k\<close> is given by the
  parameter \<open>analyzeImage k path\<close>: \<open>Inr\<close> a fulfilled value, \<open>Inl\<close> a rejection.
\<close>

definition allSettled ::
  "(nat \<Rightarrow> jsstring \<Rightarrow> GeminiMCPError + AnalysisResult) \<Rightarrow> nat \<Rightarrow> jsstring list
     \<Rightarrow> (GeminiMCPError + AnalysisResult) list" where
  "allSettled analyzeImage i batch =
     map (\<lambda>(k, path). analyzeImage k path) (zip [i ..< i + length batch] batch)"

text \<open>The inner loop over the settled outcomes.\<close>

fun collect :: "(GeminiMCPError + AnalysisResult) list \<Rightarrow> BatchState \<Rightarrow> BatchState" where
  "collect [] st = st"
| "collect (Inr v # rs) st = collect rs (st\<lparr>results := results st @ [v]\<rparr>)"
| "collect (Inl reason # rs) st = collect rs (st\<lparr>logged := logged st @ [reason]\<rparr>)"

text \<open>
  The outer loop \<^verbatim>\<open>for (let i = 0; i < imagePaths.length; i += maxConcurrency)\<close>. With a
  window size of 0 the index never advances, so the loop is a partial function: \<open>None\<close>
  is a run that does not return.
\<close>

partial_function (option) batchLoop ::
  "nat \<Rightarrow> (nat \<Rightarrow> jsstring \<Rightarrow> GeminiMCPError + AnalysisResult) \<Rightarrow> jsstring list
     \<Rightarrow> nat \<Rightarrow> BatchState \<Rightarrow> BatchState option" where
  "batchLoop maxConcurrency analyzeImage imagePaths i st =
     (if i < length imagePaths
      then (let batch = sliceArray imagePaths i (i + maxConcurrency);
                batchResults = allSettled analyzeImage i batch
            in batchLoop maxConcurrency analyzeImage imagePaths (i + maxConcurrency)
                 (collect batchResults (st\<lparr>dispatched := dispatched st @ [batch]\<rparr>)))
      else Some st)"

definition batchAnalyzeWith ::
  "nat \<Rightarrow> (nat \<Rightarrow> jsstring \<Rightarrow> GeminiMCPError + AnalysisResult) \<Rightarrow> jsstring list \<Rightarrow> BatchState option" where
  "batchAnalyzeWith maxConcurrency analyzeImage imagePaths =
     batchLoop maxConcurrency analyzeImage imagePaths 0 \<lparr> results = [], logged = [], dispatched = [] \<rparr>"

definition batchAnalyze ::
  "(nat \<Rightarrow> jsstring \<Rightarrow> GeminiMCPError + AnalysisResult) \<Rightarrow> jsstring list \<Rightarrow> BatchState option" where
  "batchAnalyze analyzeImage imagePaths = batchAnalyzeWith getMaxConcurrentRequests analyzeImage imagePaths"

section \<open>Notions used to state the properties\<close>

text \<open>A string occurs in another one as a contiguous substring.\<close>

definition occursIn :: "jsstring \<Rightarrow> jsstring \<Rightarrow> bool" where
  "occursIn needle s \<longleftrightarrow> (\<exists>pre post. s = pre @ needle @ post)"

text \<open>The five arguments every invocation carries.\<close>

definition baseArgs :: "jsstring \<Rightarrow> jsstring \<Rightarrow> jsstring list" where
  "baseArgs prompt imagePath =
     [ascii ''@google-ai/generative-ai-cli'', ascii ''--prompt'', prompt, ascii ''--file'', imagePath]"





text \<open>
  List items, stated without reference to the matching functions: a bullet line starts with
  a bullet marker and a white-space character; a numbered line starts with one or more
  digits, a period and a white-space character. From a bullet line the marker and the white
  space after it are removed, from what is then a numbered line the digits, the period and
  the white space after them.
\<close>

definition bulletLine :: "jsstring \<Rightarrow> bool" where
  "bulletLine line \<longleftrightarrow> (\<exists>b c rest. line = b # c # rest \<and> isBullet b \<and> isSpace c)"

definition numberedLine :: "jsstring \<Rightarrow> bool" where
  "numberedLine line \<longleftrightarrow>
     (\<exists>ds c rest. ds \<noteq> [] \<and> (\<forall>d \<in> set ds. isDigit d) \<and> line = ds @ 0x2E # c # rest \<and> isSpace c)"

definition afterBullet :: "jsstring \<Rightarrow> jsstring" where
  "afterBullet line = (if bulletLine line then dropWhile isSpace (tl line) else line)"

definition afterNumber :: "jsstring \<Rightarrow> jsstring" where
  "afterNumber line =
     (if numberedLine line then dropWhile isSpace (tl (dropWhile isDigit line)) else line)"

definition itemText :: "jsstring \<Rightarrow> jsstring" where
  "itemText line = trim (afterNumber (afterBullet line))"

text \<open>Joining lines with line feeds, the inverse of splitting at line feeds.\<close>

fun joinLines :: "jsstring list \<Rightarrow> jsstring" where
  "joinLines [] = []"
| "joinLines [l] = l"
| "joinLines (l # m # ls) = l @ 0x0A # joinLines (m # ls)"

text \<open>
  List extraction as the specification words it: a line is kept when it begins with a
  bullet marker or with digits followed by a period; the marker and the white space around
  it are removed; empty entries are dropped.
\<close>

definition spec_beginsWithMarker :: "jsstring \<Rightarrow> bool" where
  "spec_beginsWithMarker line \<longleftrightarrow>
     (case line of [] \<Rightarrow> False | c # cs \<Rightarrow> isBullet c) \<or>
     (takeWhile isDigit line \<noteq> [] \<and>
      (case dropWhile isDigit line of [] \<Rightarrow> False | c # cs \<Rightarrow> c = 0x2E))"

definition spec_stripMarker :: "jsstring \<Rightarrow> jsstring" where
  "spec_stripMarker line =
     (case line of
        [] \<Rightarrow> []
      | c # cs \<Rightarrow> if isBullet c then trim cs else trim (tl (dropWhile isDigit line)))"

definition spec_listExtraction :: "jsstring \<Rightarrow> jsstring list" where
  "spec_listExtraction text =
     filter (\<lambda>item. item \<noteq> [])
       (map spec_stripMarker (filter spec_beginsWithMarker (splitOn isNewline text)))"

text \<open>
  The decimal number written with the integer digits \<open>ds\<close> and the fraction digits
  \<open>fs\<close> (none for an integer), and the condition that a number written in a text ends
  where the text \<open>tail\<close> starts.
\<close>

definition decimalOf :: "jsstring \<Rightarrow> jsstring \<Rightarrow> rat" where
  "decimalOf ds fs = of_nat (decimalValue ds) + of_nat (decimalValue fs) / 10 ^ length fs"

definition allDigits :: "jsstring \<Rightarrow> bool" where
  "allDigits ds \<longleftrightarrow> ds \<noteq> [] \<and> list_all isDigit ds"




text \<open>A metadata record and an options record with only the confidence flag set, for examples.\<close>

definition exampleMetadata :: ImageMetadata where
  "exampleMetadata =
     \<lparr> filename = ascii ''test.jpg'', size_bytes = 1024, dimensions = (0, 0),
       format = ascii ''jpg'', exif = [] \<rparr>"

definition confidenceOptions :: ImageAnalysisOptions where
  "confidenceOptions =
     \<lparr> analysisType = Describe, detailLevel = Standard, includeConfidence = True,
       extractColors = False, detectFaces = False, readQRCodes = False, includeMetadata = False \<rparr>"

text \<open>
  The outcome of every item of a batch in input order, the fulfilled values and the rejection
  reasons among a list of outcomes (each in the order of the list), and the partition of a list
  into consecutive windows of a given size.
\<close>

definition itemOutcomes ::
  "(nat \<Rightarrow> jsstring \<Rightarrow> GeminiMCPError + AnalysisResult) \<Rightarrow> jsstring list
     \<Rightarrow> (GeminiMCPError + AnalysisResult) list" where
  "itemOutcomes analyzeImage imagePaths =
     map (\<lambda>k. analyzeImage k (imagePaths ! k)) [0 ..< length imagePaths]"

fun fulfilled :: "('e + 'r) list \<Rightarrow> 'r list" where
  "fulfilled [] = []"
| "fulfilled (Inr v # os) = v # fulfilled os"
| "fulfilled (Inl e # os) = fulfilled os"

fun rejected :: "('e + 'r) list \<Rightarrow> 'e list" where
  "rejected [] = []"
| "rejected (Inr v # os) = rejected os"
| "rejected (Inl e # os) = e # rejected os"

function windowsOf :: "nat \<Rightarrow> 'a list \<Rightarrow> 'a list list" where
  "windowsOf c xs = (if c = 0 \<or> xs = [] then [] else take c xs # windowsOf c (drop c xs))"
  by pat_completeness auto
termination
  by (relation "measure (\<lambda>(c, xs). length xs)") auto

declare windowsOf.simps [simp del]

text \<open>An outcome oracle and a result for the examples: the item at position 2 fails.\<close>

definition exampleResult :: AnalysisResult where
  "exampleResult =
     \<lparr> description = ascii ''ok'', objects = [], text_field = [], metadata = exampleMetadata,
       confidence = Num (8 / 10), colors = [], processingTime = 0 \<rparr>"

definition exampleError :: GeminiMCPError where
  "exampleError = \<lparr> code = ANALYSIS_TIMEOUT, message = ascii ''timeout'', details = None \<rparr>"

definition thirdFails :: "nat \<Rightarrow> jsstring \<Rightarrow> GeminiMCPError + AnalysisResult" where
  "thirdFails k path = (if k = 2 then Inl exampleError else Inr (exampleResult \<lparr> description := path \<rparr>))"

definition fivePaths :: "jsstring list" where
  "fivePaths = [ascii ''a.png'', ascii ''b.png'', ascii ''c.png'', ascii ''d.png'', ascii ''e.png'']"

section \<open>Substrings\<close>

lemma startsWith_iff: "startsWith s p \<longleftrightarrow> (\<exists>post. s = p @ post)"
  by (induction s p rule: startsWith.induct) auto

lemma includesStr_iff: "includesStr s needle \<longleftrightarrow> occursIn needle s"
proof (induction s)
  case Nil
  show ?case by (cases needle) (simp_all add: occursIn_def)
next
  case (Cons c cs)
  have "occursIn needle (c # cs) \<longleftrightarrow> (\<exists>post. c # cs = needle @ post) \<or> occursIn needle cs"
    unfolding occursIn_def
  proof
    assume "\<exists>pre post. c # cs = pre @ needle @ post"
    then obtain pre post where e: "c # cs = pre @ needle @ post" by blast
    show "(\<exists>post. c # cs = needle @ post) \<or> (\<exists>pre post. cs = pre @ needle @ post)"
    proof (cases pre)
      case Nil
      with e show ?thesis by auto
    next
      case (Cons a pre')
      with e have "cs = pre' @ needle @ post" by simp
      then show ?thesis by blast
    qed
  next
    assume "(\<exists>post. c # cs = needle @ post) \<or> (\<exists>pre post. cs = pre @ needle @ post)"
    then show "\<exists>pre post. c # cs = pre @ needle @ post"
    proof
      assume "\<exists>post. c # cs = needle @ post"
      then obtain post where "c # cs = [] @ needle @ post" by auto
      then show ?thesis by blast
    next
      assume "\<exists>pre post. cs = pre @ needle @ post"
      then obtain pre post where "cs = pre @ needle @ post" by blast
      then have "c # cs = (c # pre) @ needle @ post" by simp
      then show ?thesis by blast
    qed
  qed
  with Cons show ?case by (simp add: startsWith_iff)
qed

section \<open>Properties of the configuration update\<close>

text \<open>
  C9. \<^verbatim>\<open>updateConfig\<close> merges a partial update into the configuration: a field that the
  update names takes the value of the update, a field that it does not name keeps its value;
  the empty update changes nothing, and applying the same update twice is the same as applying
  it once.
\<close>

theorem updateConfig_partial_merge:
  "(p_model p = Some m \<longrightarrow> model (updateConfig c p) = m) \<and>
   (p_model p = None \<longrightarrow> model (updateConfig c p) = model c) \<and>
   (p_temperature p = Some t \<longrightarrow> temperature (updateConfig c p) = t) \<and>
   (p_temperature p = None \<longrightarrow> temperature (updateConfig c p) = temperature c) \<and>
   (p_maxOutputTokens p = Some k \<longrightarrow> maxOutputTokens (updateConfig c p) = k) \<and>
   (p_maxOutputTokens p = None \<longrightarrow> maxOutputTokens (updateConfig c p) = maxOutputTokens c) \<and>
   (p_language p = Some l \<longrightarrow> language (updateConfig c p) = l) \<and>
   (p_language p = None \<longrightarrow> language (updateConfig c p) = language c) \<and>
   updateConfig c emptyPartial = c \<and>
   updateConfig (updateConfig c p) p = updateConfig c p"
  by (simp add: updateConfig_def spreadField_def emptyPartial_def split: option.splits)

theorem updateConfig_partial_merge_witness:
  "model (updateConfig DEFAULT_GEMINI_CONFIG
      \<lparr> p_model = Some (ascii ''gemini-1.5-pro''), p_temperature = Some (1 / 2),
        p_maxOutputTokens = None, p_language = None \<rparr>) = ascii ''gemini-1.5-pro'' \<and>
   temperature (updateConfig DEFAULT_GEMINI_CONFIG
      \<lparr> p_model = Some (ascii ''gemini-1.5-pro''), p_temperature = Some (1 / 2),
        p_maxOutputTokens = None, p_language = None \<rparr>) = 1 / 2 \<and>
   maxOutputTokens (updateConfig DEFAULT_GEMINI_CONFIG
      \<lparr> p_model = Some (ascii ''gemini-1.5-pro''), p_temperature = Some (1 / 2),
        p_maxOutputTokens = None, p_language = None \<rparr>) = 2048 \<and>
   language (updateConfig DEFAULT_GEMINI_CONFIG
      \<lparr> p_model = Some (ascii ''gemini-1.5-pro''), p_temperature = Some (1 / 2),
        p_maxOutputTokens = None, p_language = None \<rparr>) = Ja \<and>
   updateConfig DEFAULT_GEMINI_CONFIG emptyPartial = DEFAULT_GEMINI_CONFIG"
  using updateConfig_partial_merge [of
      "\<lparr> p_model = Some (ascii ''gemini-1.5-pro''), p_temperature = Some (1 / 2),
        p_maxOutputTokens = None, p_language = None \<rparr>"
      "ascii ''gemini-1.5-pro''" DEFAULT_GEMINI_CONFIG "1 / 2" 0 Ja]
  by (simp add: DEFAULT_GEMINI_CONFIG_def)

section \<open>Properties of the command builder\<close>

text \<open>
  C3. When model, temperature and maximal output tokens all have their compiled-in default
  values, the argument list is exactly the tool identifier, the prompt flag with the
  instruction and the file flag with the path. In general the list is these five arguments
  followed by the model flag, the temperature flag and the token flag, each present if and
  only if the parameter differs from its default.
\<close>

theorem buildGeminiCommand_minimal:
  "(model config = model DEFAULT_GEMINI_CONFIG \<and>
    temperature config = temperature DEFAULT_GEMINI_CONFIG \<and>
    maxOutputTokens config = maxOutputTokens DEFAULT_GEMINI_CONFIG
      \<longrightarrow> buildGeminiCommand toString config prompt imagePath = baseArgs prompt imagePath) \<and>
   (\<exists>m t k. buildGeminiCommand toString config prompt imagePath = baseArgs prompt imagePath @ m @ t @ k \<and>
      (m = [] \<longleftrightarrow> model config = model DEFAULT_GEMINI_CONFIG) \<and>
      (model config \<noteq> model DEFAULT_GEMINI_CONFIG \<longrightarrow> m = [ascii ''--model'', model config]) \<and>
      (t = [] \<longleftrightarrow> temperature config = temperature DEFAULT_GEMINI_CONFIG) \<and>
      (temperature config \<noteq> temperature DEFAULT_GEMINI_CONFIG
         \<longrightarrow> t = [ascii ''--temperature'', toString (temperature config)]) \<and>
      (k = [] \<longleftrightarrow> maxOutputTokens config = maxOutputTokens DEFAULT_GEMINI_CONFIG) \<and>
      (maxOutputTokens config \<noteq> maxOutputTokens DEFAULT_GEMINI_CONFIG
         \<longrightarrow> k = [ascii ''--max-tokens'', toString (maxOutputTokens config)]))"
proof (intro conjI impI)
  assume "model config = model DEFAULT_GEMINI_CONFIG \<and>
    temperature config = temperature DEFAULT_GEMINI_CONFIG \<and>
    maxOutputTokens config = maxOutputTokens DEFAULT_GEMINI_CONFIG"
  then show "buildGeminiCommand toString config prompt imagePath = baseArgs prompt imagePath"
    by (simp add: buildGeminiCommand_def baseArgs_def)
next
  let ?m = "if model config \<noteq> model DEFAULT_GEMINI_CONFIG then [ascii ''--model'', model config] else []"
  let ?t = "if temperature config \<noteq> temperature DEFAULT_GEMINI_CONFIG
            then [ascii ''--temperature'', toString (temperature config)] else []"
  let ?k = "if maxOutputTokens config \<noteq> maxOutputTokens DEFAULT_GEMINI_CONFIG
            then [ascii ''--max-tokens'', toString (maxOutputTokens config)] else []"
  have "buildGeminiCommand toString config prompt imagePath = baseArgs prompt imagePath @ ?m @ ?t @ ?k"
    by (simp add: buildGeminiCommand_def baseArgs_def Let_def)
  then show "\<exists>m t k. buildGeminiCommand toString config prompt imagePath = baseArgs prompt imagePath @ m @ t @ k \<and>
      (m = [] \<longleftrightarrow> model config = model DEFAULT_GEMINI_CONFIG) \<and>
      (model config \<noteq> model DEFAULT_GEMINI_CONFIG \<longrightarrow> m = [ascii ''--model'', model config]) \<and>
      (t = [] \<longleftrightarrow> temperature config = temperature DEFAULT_GEMINI_CONFIG) \<and>
      (temperature config \<noteq> temperature DEFAULT_GEMINI_CONFIG
         \<longrightarrow> t = [ascii ''--temperature'', toString (temperature config)]) \<and>
      (k = [] \<longleftrightarrow> maxOutputTokens config = maxOutputTokens DEFAULT_GEMINI_CONFIG) \<and>
      (maxOutputTokens config \<noteq> maxOutputTokens DEFAULT_GEMINI_CONFIG
         \<longrightarrow> k = [ascii ''--max-tokens'', toString (maxOutputTokens config)])"
    by (intro exI [of _ ?m] exI [of _ ?t] exI [of _ ?k]) simp
qed

theorem buildGeminiCommand_minimal_witness:
  "buildGeminiCommand (\<lambda>r. if r = 1 / 2 then ascii ''0.5'' else ascii ''2048'')
     DEFAULT_GEMINI_CONFIG (ascii ''p'') (ascii ''/path/to/test.jpg'') =
     [ascii ''@google-ai/generative-ai-cli'', ascii ''--prompt'', ascii ''p'',
      ascii ''--file'', ascii ''/path/to/test.jpg'']"
  using buildGeminiCommand_minimal [of DEFAULT_GEMINI_CONFIG
      "\<lambda>r. if r = 1 / 2 then ascii ''0.5'' else ascii ''2048''"
      "ascii ''p''" "ascii ''/path/to/test.jpg''"]
  by (simp add: baseArgs_def)



section \<open>Properties of the process runner\<close>

text \<open>
  C2. When the process closes with a status other than 0 (a number or null), the call fails
  with an error that carries the standard error text, the standard output text and the exit
  status. The error is an authentication failure when the standard error text contains
  "Authentication failed" or "Unauthorized"; otherwise it is a rate-limit error when the text
  contains "Rate limit" or "quota"; otherwise it is the generic execution failure, whose message
  shows the exit status. A text that contains "Rate limit" is never classified as the generic
  failure.
\<close>

theorem onClose_classification:
  assumes "c \<noteq> Some 0"
  shows "\<exists>e. onClose stdout stderr c = Inl e \<and>
     details e = Some \<lparr> d_stderr = stderr, d_stdout = stdout, d_code = c \<rparr> \<and>
     (occursIn (ascii ''Authentication failed'') stderr \<or> occursIn (ascii ''Unauthorized'') stderr
        \<longrightarrow> code e = GEMINI_AUTH_ERROR \<and> message e = msg_authenticationFailed) \<and>
     (\<not> occursIn (ascii ''Authentication failed'') stderr \<and> \<not> occursIn (ascii ''Unauthorized'') stderr \<and>
      (occursIn (ascii ''Rate limit'') stderr \<or> occursIn (ascii ''quota'') stderr)
        \<longrightarrow> code e = RATE_LIMIT_EXCEEDED \<and> message e = msg_rateLimitExceeded) \<and>
     (\<not> occursIn (ascii ''Authentication failed'') stderr \<and> \<not> occursIn (ascii ''Unauthorized'') stderr \<and>
      \<not> occursIn (ascii ''Rate limit'') stderr \<and> \<not> occursIn (ascii ''quota'') stderr
        \<longrightarrow> code e = NETWORK_ERROR \<and>
            message e = msg_networkError_prefix @ msg_cliExecutionError @ showCode c @ ascii '')'') \<and>
     (occursIn (ascii ''Rate limit'') stderr \<longrightarrow> code e \<noteq> NETWORK_ERROR)"
  using assms
  by (simp add: onClose_def mapChildProcessError_def includesStr_iff authenticationFailed_def
      rateLimitExceeded_def networkError_def Let_def)

theorem onClose_classification_witness:
  "onClose [] (ascii ''Rate limit'') (Some 1) =
     Inl \<lparr> code = RATE_LIMIT_EXCEEDED, message = msg_rateLimitExceeded,
           details = Some \<lparr> d_stderr = ascii ''Rate limit'', d_stdout = [], d_code = Some 1 \<rparr> \<rparr>"
proof -
  have ne: "Some (1::int) \<noteq> Some 0" by simp
  have r: "occursIn (ascii ''Rate limit'') (ascii ''Rate limit'')"
    unfolding occursIn_def by (intro exI [of _ "[]"]) simp
  have a1: "\<not> occursIn (ascii ''Authentication failed'') (ascii ''Rate limit'')"
    unfolding includesStr_iff [symmetric] by code_simp
  have a2: "\<not> occursIn (ascii ''Unauthorized'') (ascii ''Rate limit'')"
    unfolding includesStr_iff [symmetric] by code_simp
  from onClose_classification [OF ne, of "[]" "ascii ''Rate limit''"]
  obtain e where e: "onClose [] (ascii ''Rate limit'') (Some 1) = Inl e"
    and d: "details e = Some \<lparr> d_stderr = ascii ''Rate limit'', d_stdout = [], d_code = Some 1 \<rparr>"
    and c: "code e = RATE_LIMIT_EXCEEDED"
    and m: "message e = msg_rateLimitExceeded"
    using r a1 a2 by blast
  from e d c m show ?thesis by (cases e) simp
qed

section \<open>Properties of list extraction\<close>

lemma takeWhile_nonempty: "takeWhile P xs \<noteq> [] \<longleftrightarrow> (\<exists>y ys. xs = y # ys \<and> P y)"
  by (cases xs) auto

lemma not_digit_period: "\<not> isDigit 0x2E"
  by (simp add: isDigit_def)

lemma matchBullet_iff: "matchBullet line \<noteq> None \<longleftrightarrow> bulletLine line"
  by (cases line) (auto simp: matchBullet_def bulletLine_def takeWhile_nonempty)

lemma matchBullet_Some: "bulletLine line \<Longrightarrow> matchBullet line = Some (dropWhile isSpace (tl line))"
  by (auto simp: matchBullet_def bulletLine_def)

lemma digits_then_period:
  assumes "\<forall>d \<in> set ds. isDigit d"
  shows "takeWhile isDigit (ds @ 0x2E # rest) = ds" and "dropWhile isDigit (ds @ 0x2E # rest) = 0x2E # rest"
  using assms by (simp_all add: takeWhile_append2 dropWhile_append2 not_digit_period)

lemma matchNumbered_iff: "matchNumbered line \<noteq> None \<longleftrightarrow> numberedLine line"
proof
  assume m: "matchNumbered line \<noteq> None"
  let ?ds = "takeWhile isDigit line"
  from m have ne: "?ds \<noteq> []" by (auto simp: matchNumbered_def split: if_splits)
  from m ne obtain cs where d: "dropWhile isDigit line = 0x2E # cs" and s: "takeWhile isSpace cs \<noteq> []"
    by (auto simp: matchNumbered_def split: if_splits list.splits)
  from s obtain c rest where cs: "cs = c # rest" and c: "isSpace c"
    by (auto simp: takeWhile_nonempty)
  have "line = ?ds @ dropWhile isDigit line" by simp
  with d cs have "line = ?ds @ 0x2E # c # rest" by simp
  moreover have "\<forall>d \<in> set ?ds. isDigit d" by (auto dest: set_takeWhileD)
  ultimately show "numberedLine line"
    unfolding numberedLine_def using ne c by blast
next
  assume "numberedLine line"
  then obtain ds c rest where ne: "ds \<noteq> []" and dg: "\<forall>d \<in> set ds. isDigit d"
    and l: "line = ds @ 0x2E # c # rest" and c: "isSpace c"
    unfolding numberedLine_def by blast
  show "matchNumbered line \<noteq> None"
    using ne c by (simp add: matchNumbered_def l digits_then_period [OF dg])
qed

lemma matchNumbered_Some:
  assumes "numberedLine line"
  shows "matchNumbered line = Some (dropWhile isSpace (tl (dropWhile isDigit line)))"
proof -
  from assms obtain ds c rest where ne: "ds \<noteq> []" and dg: "\<forall>d \<in> set ds. isDigit d"
    and l: "line = ds @ 0x2E # c # rest" and c: "isSpace c"
    unfolding numberedLine_def by blast
  show ?thesis
    using ne c by (simp add: matchNumbered_def l digits_then_period [OF dg])
qed

lemma isListItem_iff: "isListItem line \<longleftrightarrow> bulletLine line \<or> numberedLine line"
  unfolding isListItem_def matchBullet_iff matchNumbered_iff ..

lemma replaceBullet_eq: "replaceBullet line = afterBullet line"
proof (cases "bulletLine line")
  case True
  then show ?thesis by (simp add: replaceBullet_def afterBullet_def matchBullet_Some)
next
  case False
  then have "matchBullet line = None" using matchBullet_iff by blast
  with False show ?thesis by (simp add: replaceBullet_def afterBullet_def)
qed

lemma replaceNumbered_eq: "replaceNumbered line = afterNumber line"
proof (cases "numberedLine line")
  case True
  then show ?thesis by (simp add: replaceNumbered_def afterNumber_def matchNumbered_Some)
next
  case False
  then have "matchNumbered line = None" using matchNumbered_iff by blast
  with False show ?thesis by (simp add: replaceNumbered_def afterNumber_def)
qed

lemma splitOn_nonempty: "splitOn sep s \<noteq> []"
  by (induction s) (auto split: list.splits)

lemma splitOn_append: "sep c \<Longrightarrow> splitOn sep (a @ c # b) = splitOn sep a @ splitOn sep b"
proof (induction a)
  case Nil
  then show ?case by simp
next
  case (Cons x a)
  obtain p ps where "splitOn sep a = p # ps"
    using splitOn_nonempty [of sep a] by (cases "splitOn sep a") auto
  with Cons show ?case by simp
qed

lemma splitOn_no_sep: "piece \<in> set (splitOn sep s) \<Longrightarrow> c \<in> set piece \<Longrightarrow> \<not> sep c"
proof (induction s arbitrary: piece)
  case Nil
  then show ?case by simp
next
  case (Cons x s)
  show ?case
  proof (cases "sep x")
    case True
    with Cons show ?thesis by auto
  next
    case False
    obtain p ps where sp: "splitOn sep s = p # ps"
      using splitOn_nonempty [of sep s] by (cases "splitOn sep s") auto
    with False Cons.prems have "piece = x # p \<or> piece \<in> set ps" by simp
    then show ?thesis
    proof
      assume "piece = x # p"
      with Cons.prems(2) have "c = x \<or> c \<in> set p" by simp
      then show ?thesis using False Cons.IH [of p] sp by auto
    next
      assume "piece \<in> set ps"
      then show ?thesis using Cons.IH [of piece] Cons.prems(2) sp by simp
    qed
  qed
qed

lemma joinLines_splitOn: "joinLines (splitOn isNewline s) = s"
proof (induction s)
  case Nil
  then show ?case by simp
next
  case (Cons x s)
  obtain p ps where sp: "splitOn isNewline s = p # ps"
    using splitOn_nonempty [of isNewline s] by (cases "splitOn isNewline s") auto
  show ?case
  proof (cases "isNewline x")
    case True
    then have "x = 0x0A" by (simp add: isNewline_def)
    with True Cons sp show ?thesis by simp
  next
    case False
    with Cons sp show ?thesis by (cases ps) auto
  qed
qed

text \<open>
  C7, as the code has it. List extraction splits the text at line feeds, keeps exactly the
  lines that begin with a bullet marker followed by at least one white-space character, or
  with one or more digits, a period and at least one white-space character; from a kept line
  it removes a leading bullet marker with the white space after it, then a leading numbered
  marker with the white space after it from what remains, and trims the result; entries that
  become empty are dropped. The lines are those of the text (joined with line feeds they give
  the text back, and none contains a line feed). Extraction from two texts joined by a line
  feed is the extraction from the first followed by the extraction from the second, so the
  order of the lines is kept and a repeated line is reported again. The example of the
  specification holds.
\<close>

theorem extractObjectsList_items:
  "extractObjectsList text =
     filter (\<lambda>item. item \<noteq> [])
       (map itemText (filter (\<lambda>line. bulletLine line \<or> numberedLine line) (splitOn isNewline text))) \<and>
   joinLines (splitOn isNewline text) = text \<and>
   (\<forall>line \<in> set (splitOn isNewline text). 0x0A \<notin> set line) \<and>
   extractObjectsList (t1 @ [0x0A] @ t2) = extractObjectsList t1 @ extractObjectsList t2 \<and>
   extractObjectsList
     (ascii ''- apple'' @ [0x0A] @ ascii ''* banana'' @ [0x0A] @ ascii ''1. cherry'' @ [0x0A] @
      ascii ''notaitem'') = [ascii ''apple'', ascii ''banana'', ascii ''cherry'']"
proof (intro conjI)
  have f: "filter isListItem ls = filter (\<lambda>line. bulletLine line \<or> numberedLine line) ls" for ls
    by (rule filter_cong) (simp_all add: isListItem_iff)
  have m: "(\<lambda>line. trim (replaceNumbered (replaceBullet line))) = itemText"
    by (rule ext) (simp add: itemText_def replaceBullet_eq replaceNumbered_eq)
  show "extractObjectsList text =
     filter (\<lambda>item. item \<noteq> [])
       (map itemText (filter (\<lambda>line. bulletLine line \<or> numberedLine line) (splitOn isNewline text)))"
    by (simp add: extractObjectsList_def f m)
  show "joinLines (splitOn isNewline text) = text"
    by (rule joinLines_splitOn)
  show "\<forall>line \<in> set (splitOn isNewline text). 0x0A \<notin> set line"
    using splitOn_no_sep [where sep = isNewline and s = "text" and c = "0x0A"]
    by (auto simp: isNewline_def)
  show "extractObjectsList (t1 @ [0x0A] @ t2) = extractObjectsList t1 @ extractObjectsList t2"
    by (simp add: extractObjectsList_def splitOn_append isNewline_def)
  show "extractObjectsList
     (ascii ''- apple'' @ [0x0A] @ ascii ''* banana'' @ [0x0A] @ ascii ''1. cherry'' @ [0x0A] @
      ascii ''notaitem'') = [ascii ''apple'', ascii ''banana'', ascii ''cherry'']"
    by code_simp
qed

theorem extractObjectsList_items_witness:
  "extractObjectsList (ascii ''- a'' @ [0x0A] @ ascii ''- a'') = [ascii ''a'', ascii ''a''] \<and>
   joinLines (splitOn isNewline (ascii ''- a'')) = ascii ''- a''"
proof -
  have one: "extractObjectsList (ascii ''- a'') = [ascii ''a'']" by code_simp
  from extractObjectsList_items [of "ascii ''- a''" "ascii ''- a''" "ascii ''- a''"] one
  show ?thesis by simp
qed

text \<open>
  C7, as the specification words it, asks only for a marker at the start of the line. The
  line "-apple" starts with the bullet marker "-" and would be reported as "apple"; the
  pattern of the code requires white space after the marker and reports nothing. The line
  "- 1. x" would be reported as "1. x" once its bullet marker is removed; the code removes
  the numbered marker as well and reports "x".
\<close>

theorem extractObjectsList_marker_counterexample:
  "extractObjectsList (ascii ''-apple'') = [] \<and>
   spec_listExtraction (ascii ''-apple'') = [ascii ''apple''] \<and>
   extractObjectsList (ascii ''- 1. x'') = [ascii ''x''] \<and>
   spec_listExtraction (ascii ''- 1. x'') = [ascii ''1. x'']"
  by code_simp

section \<open>Properties of the pattern search and of number parsing\<close>

lemma digit_not_space: "isDigit c \<Longrightarrow> \<not> isSpace c"
  by (auto simp: isDigit_def isSpace_def word_le_nat_alt)



lemma run_then_stop:
  assumes "list_all P xs" and "case ys of [] \<Rightarrow> True | y # r \<Rightarrow> \<not> P y"
  shows "takeWhile P (xs @ ys) = xs" and "dropWhile P (xs @ ys) = ys"
  using assms by (induction xs) (auto split: list.splits)

lemma stripPrefix_Some_iff: "stripPrefix p s = Some r \<longleftrightarrow> s = p @ r"
  by (induction p s rule: stripPrefix.induct) auto




lemma regexSearch_None_iff: "regexSearch m s = None \<longleftrightarrow> (\<forall>k \<le> length s. m (drop k s) = None)"
proof (induction s)
  case Nil
  then show ?case by simp
next
  case (Cons c cs)
  have "(\<forall>k \<le> length (c # cs). m (drop k (c # cs)) = None) \<longleftrightarrow>
        m (c # cs) = None \<and> (\<forall>k \<le> length cs. m (drop k cs) = None)"
  proof
    assume a: "\<forall>k \<le> length (c # cs). m (drop k (c # cs)) = None"
    from a have "m (drop 0 (c # cs)) = None" by blast
    moreover have "m (drop k cs) = None" if "k \<le> length cs" for k
      using a [rule_format, of "Suc k"] that by simp
    ultimately show "m (c # cs) = None \<and> (\<forall>k \<le> length cs. m (drop k cs) = None)" by simp
  next
    assume a: "m (c # cs) = None \<and> (\<forall>k \<le> length cs. m (drop k cs) = None)"
    show "\<forall>k \<le> length (c # cs). m (drop k (c # cs)) = None"
    proof (intro allI impI)
      fix k assume "k \<le> length (c # cs)"
      then show "m (drop k (c # cs)) = None" using a by (cases k) simp_all
    qed
  qed
  with Cons show ?case by (simp split: option.splits)
qed

lemma regexSearch_Some: "regexSearch m s = Some r \<Longrightarrow> \<exists>k \<le> length s. m (drop k s) = Some r"
proof (induction s)
  case Nil
  then show ?case by simp
next
  case (Cons c cs)
  show ?case
  proof (cases "m (c # cs)")
    case None
    with Cons.prems have "regexSearch m cs = Some r" by simp
    then obtain k where "k \<le> length cs" "m (drop k cs) = Some r" using Cons.IH by blast
    then have "Suc k \<le> length (c # cs) \<and> m (drop (Suc k) (c # cs)) = Some r" by simp
    then show ?thesis by blast
  next
    case (Some a)
    with Cons.prems have "m (drop 0 (c # cs)) = Some r" by simp
    then show ?thesis by blast
  qed
qed

lemma no_label_no_match:
  assumes "\<not> occursIn label s" and "\<And>t. stripPrefix label t = None \<Longrightarrow> m t = None"
  shows "regexSearch m s = None"
proof -
  have "m (drop k s) = None" for k
  proof (rule assms(2))
    show "stripPrefix label (drop k s) = None"
    proof (cases "stripPrefix label (drop k s)")
      case None
      then show ?thesis .
    next
      case (Some r)
      then have "drop k s = label @ r" by (simp add: stripPrefix_Some_iff)
      then have "s = take k s @ label @ r" by (metis append_take_drop_id)
      with assms(1) show ?thesis unfolding occursIn_def by blast
    qed
  qed
  then show ?thesis by (simp add: regexSearch_None_iff)
qed

lemma fractionPart_cases:
  "fractionPart r = [] \<or> (\<exists>fs. fractionPart r = 0x2E # fs \<and> allDigits fs)"
  by (cases r) (auto simp: fractionPart_def allDigits_def list_all_iff dest: set_takeWhileD)

lemma decimalOf_nonneg: "0 \<le> decimalOf ds fs"
  by (simp add: decimalOf_def)

lemma parseFloat_integer:
  assumes "allDigits ds"
  shows "parseFloat (Some ds) = Num (decimalOf ds [])"
proof -
  from assms obtain d r where ds: "ds = d # r" and d: "isDigit d"
    by (cases ds) (auto simp: allDigits_def)
  then have sp: "dropWhile isSpace ds = ds" by (simp add: digit_not_space)
  from assms have la: "list_all isDigit ds" by (simp add: allDigits_def)
  have "takeWhile isDigit (ds @ []) = ds" "dropWhile isDigit (ds @ []) = []"
    by (rule run_then_stop [OF la], simp)+
  then have t: "takeWhile isDigit ds = ds" "dropWhile isDigit ds = []" by simp_all
  from assms have "ds \<noteq> []" by (simp add: allDigits_def)
  then show ?thesis
    unfolding parseFloat_def Let_def option.case sp t by (simp add: decimalOf_def decimalValue_def)
qed

lemma parseFloat_fraction:
  assumes "allDigits ds" and "allDigits fs"
  shows "parseFloat (Some (ds @ 0x2E # fs)) = Num (decimalOf ds fs)"
proof -
  from assms obtain d r where ds: "ds = d # r" and d: "isDigit d"
    by (cases ds) (auto simp: allDigits_def)
  then have sp: "dropWhile isSpace (ds @ 0x2E # fs) = ds @ 0x2E # fs" by (simp add: digit_not_space)
  from assms have la: "list_all isDigit ds" and lf: "list_all isDigit fs"
    by (simp_all add: allDigits_def)
  have t: "takeWhile isDigit (ds @ 0x2E # fs) = ds" "dropWhile isDigit (ds @ 0x2E # fs) = 0x2E # fs"
    by (rule run_then_stop [OF la], simp add: isDigit_def)+
  have "takeWhile isDigit (fs @ []) = fs"
    by (rule run_then_stop [OF lf]) simp
  then have f: "takeWhile isDigit fs = fs" by simp
  from assms have "ds \<noteq> []" by (simp add: allDigits_def)
  then show ?thesis
    unfolding parseFloat_def Let_def option.case sp t list.case f by (simp add: decimalOf_def)
qed

lemma confidenceAt_capture:
  assumes "confidenceAt s = Some (whole, cap)"
  shows "\<exists>ds fs. allDigits ds \<and> (cap = ds \<and> fs = [] \<or> cap = ds @ 0x2E # fs \<and> allDigits fs)"
proof -
  from assms obtain r0 where "stripPrefix label_confidence s = Some r0"
    by (auto simp: confidenceAt_def split: option.splits)
  let ?r2 = "dropWhile isSpace (drop (length (optionalChar isColon r0)) r0)"
  let ?ip = "takeWhile isDigit ?r2"
  let ?f = "fractionPart (dropWhile isDigit ?r2)"
  from assms \<open>stripPrefix label_confidence s = Some r0\<close>
  have ip: "?ip \<noteq> []" and cap: "cap = ?ip @ ?f"
    by (auto simp: confidenceAt_def Let_def split: if_splits)
  have dg: "allDigits ?ip" using ip by (auto simp: allDigits_def list_all_iff dest: set_takeWhileD)
  from fractionPart_cases [of "dropWhile isDigit ?r2"] show ?thesis
  proof
    assume "?f = []"
    with cap dg show ?thesis by auto
  next
    assume "\<exists>fs. ?f = 0x2E # fs \<and> allDigits fs"
    with cap dg show ?thesis by auto
  qed
qed

lemma confidenceAt_capture_value:
  assumes "confidenceAt s = Some (whole, cap)"
  shows "\<exists>v. 0 \<le> v \<and> parseFloat (Some cap) = Num v"
  using confidenceAt_capture [OF assms] parseFloat_integer parseFloat_fraction decimalOf_nonneg
  by metis

section \<open>Properties of confidence extraction\<close>



lemma confidenceAt_needs_label: "stripPrefix label_confidence t = None \<Longrightarrow> confidenceAt t = None"
  by (simp add: confidenceAt_def)


lemma matchGroup_capture: "matchGroup (toMatchArray r) (Suc 0) = Some (snd r)"
  by (simp add: matchGroup_def toMatchArray_def)

lemma extractConfidenceScore_match:
  assumes "regexSearch confidenceAt s = Some (whole, cap)" and "parseFloat (Some cap) = Num v"
  shows "extractConfidenceScore s = Num (if v > 1 then v / 100 else v)"
  using assms by (simp add: extractConfidenceScore_def matchConfidence_def matchGroup_capture)




section \<open>Properties of the result extractor as a whole\<close>

lemma pushSplit_total:
  "pushSplit (map_option toMatchArray x) cats =
     Inr (case x of None \<Rightarrow> cats | Some r \<Rightarrow> cats @ map trim (splitOn isComma (snd r)))"
  by (cases x) (simp_all add: pushSplit_def matchGroup_capture)

lemma extractCategories_total: "\<exists>cats. extractCategories s = Inr cats"
  by (simp add: extractCategories_def matchCategory_def matchTag_def pushSplit_total)

lemma extractColorInfo_total: "\<exists>cs. extractColorInfo s = Inr cs"
  by (cases "regexSearch colorAt s")
     (simp_all add: extractColorInfo_def matchColor_def matchGroup_capture)

lemma extractConfidenceScore_total: "\<exists>v. 0 \<le> v \<and> extractConfidenceScore s = Num v"
proof (cases "regexSearch confidenceAt s")
  case None
  then have "extractConfidenceScore s = Num (8 / 10)"
    by (simp add: extractConfidenceScore_def matchConfidence_def DEFAULT_CONFIDENCE_SCORE_def)
  then show ?thesis by (intro exI [of _ "8 / 10"]) simp
next
  case (Some r)
  obtain whole cap where r: "r = (whole, cap)" by (cases r)
  from regexSearch_Some [OF Some] r obtain k where "confidenceAt (drop k s) = Some (whole, cap)"
    by blast
  from confidenceAt_capture_value [OF this] obtain v where v: "0 \<le> v" "parseFloat (Some cap) = Num v"
    by blast
  from Some r have "regexSearch confidenceAt s = Some (whole, cap)" by simp
  from extractConfidenceScore_match [OF this v(2)] v(1) show ?thesis by auto
qed

lemma parseAnalysisResult_total:
  "\<exists>r. parseAnalysisResult raw md options time = Inr r \<and>
       confidence r = (if includeConfidence options then extractConfidenceScore raw else Num (8 / 10))"
proof -
  obtain cats where c: "extractCategories raw = Inr cats" using extractCategories_total by blast
  obtain cs where k: "extractColorInfo raw = Inr cs" using extractColorInfo_total by blast
  show ?thesis
    by (cases "analysisType options") (simp_all add: parseAnalysisResult_def c k Let_def)
qed

lemma labelledValueAt_needs_label: "stripPrefix label t = None \<Longrightarrow> labelledValueAt label t = None"
  by (simp add: labelledValueAt_def)

lemma colorAt_needs_label: "stripPrefix label_color t = None \<Longrightarrow> colorAt t = None"
  by (simp add: colorAt_def)

text \<open>
  C4. The extractors never fail. Category extraction and colour extraction read the first
  capture group of a match and call a method on it, which would throw if the group were
  undefined; they always return a list. Confidence extraction always returns a number, never
  NaN. List extraction contains no operation that can throw. Assembling the result from
  them returns a result for every text and all options. When nothing matches, each extractor
  returns its zero value: no item line gives the empty object list, no category and no tag
  match gives the empty category list, no confidence match gives the default confidence, no
  colour match gives the empty colour list. A text in which a label does not occur has no
  match for that label; in particular the empty text gives the four zero values.
\<close>

theorem extractors_never_fail:
  "(\<exists>cats. extractCategories text = Inr cats) \<and>
   (\<exists>v. extractConfidenceScore text = Num v) \<and>
   (\<exists>cs. extractColorInfo text = Inr cs) \<and>
   (\<exists>r. parseAnalysisResult text md options time = Inr r) \<and>
   ((\<forall>line \<in> set (splitOn isNewline text). \<not> isListItem line) \<longrightarrow> extractObjectsList text = []) \<and>
   (matchCategory text = None \<and> matchTag text = None \<longrightarrow> extractCategories text = Inr []) \<and>
   (matchConfidence text = None \<longrightarrow> extractConfidenceScore text = Num DEFAULT_CONFIDENCE_SCORE) \<and>
   (matchColor text = None \<longrightarrow> extractColorInfo text = Inr []) \<and>
   (\<not> occursIn label_category text \<longrightarrow> matchCategory text = None) \<and>
   (\<not> occursIn label_tag text \<longrightarrow> matchTag text = None) \<and>
   (\<not> occursIn label_confidence text \<longrightarrow> matchConfidence text = None) \<and>
   (\<not> occursIn label_color text \<longrightarrow> matchColor text = None) \<and>
   extractObjectsList [] = [] \<and> extractCategories [] = Inr [] \<and>
   extractConfidenceScore [] = Num DEFAULT_CONFIDENCE_SCORE \<and> extractColorInfo [] = Inr []"
proof (intro conjI impI)
  show "\<exists>cats. extractCategories text = Inr cats" by (rule extractCategories_total)
  show "\<exists>v. extractConfidenceScore text = Num v" using extractConfidenceScore_total by blast
  show "\<exists>cs. extractColorInfo text = Inr cs" by (rule extractColorInfo_total)
  show "\<exists>r. parseAnalysisResult text md options time = Inr r" using parseAnalysisResult_total by blast
  show "extractObjectsList text = []" if "\<forall>line \<in> set (splitOn isNewline text). \<not> isListItem line"
    using that by (simp add: extractObjectsList_def filter_empty_conv)
  show "extractCategories text = Inr []" if "matchCategory text = None \<and> matchTag text = None"
    using that by (simp add: extractCategories_def pushSplit_def)
  show "extractConfidenceScore text = Num DEFAULT_CONFIDENCE_SCORE" if "matchConfidence text = None"
    using that by (simp add: extractConfidenceScore_def)
  show "extractColorInfo text = Inr []" if "matchColor text = None"
    using that by (simp add: extractColorInfo_def)
  show "matchCategory text = None" if "\<not> occursIn label_category text"
    unfolding matchCategory_def
    using no_label_no_match [OF that, of "labelledValueAt label_category"] labelledValueAt_needs_label
    by simp
  show "matchTag text = None" if "\<not> occursIn label_tag text"
    unfolding matchTag_def
    using no_label_no_match [OF that, of "labelledValueAt label_tag"] labelledValueAt_needs_label
    by simp
  show "matchConfidence text = None" if "\<not> occursIn label_confidence text"
    unfolding matchConfidence_def
    using no_label_no_match [OF that, of confidenceAt] confidenceAt_needs_label by simp
  show "matchColor text = None" if "\<not> occursIn label_color text"
    unfolding matchColor_def
    using no_label_no_match [OF that, of colorAt] colorAt_needs_label by simp
  show "extractObjectsList [] = []" by code_simp
  show "extractCategories [] = Inr []" by code_simp
  show "extractConfidenceScore [] = Num DEFAULT_CONFIDENCE_SCORE" by code_simp
  show "extractColorInfo [] = Inr []" by code_simp
qed

theorem extractors_never_fail_witness:
  "extractObjectsList (ascii ''no pattern here'') = [] \<and>
   extractCategories (ascii ''no pattern here'') = Inr [] \<and>
   extractConfidenceScore (ascii ''no pattern here'') = Num (8 / 10) \<and>
   extractColorInfo (ascii ''no pattern here'') = Inr []"
proof -
  have l: "\<forall>line \<in> set (splitOn isNewline (ascii ''no pattern here'')). \<not> isListItem line"
    by code_simp
  have n: "\<not> occursIn label_category (ascii ''no pattern here'')"
    "\<not> occursIn label_tag (ascii ''no pattern here'')"
    "\<not> occursIn label_confidence (ascii ''no pattern here'')"
    "\<not> occursIn label_color (ascii ''no pattern here'')"
    unfolding includesStr_iff [symmetric] by code_simp+
  from extractors_never_fail [of "ascii ''no pattern here''" exampleMetadata confidenceOptions 0] l n
  show ?thesis by (simp add: DEFAULT_CONFIDENCE_SCORE_def)
qed




section \<open>Properties of the batch orchestrator\<close>

lemma collect_eq:
  "collect os st = st\<lparr>results := results st @ fulfilled os, logged := logged st @ rejected os\<rparr>"
  by (induction os st rule: collect.induct) simp_all

lemma allSettled_Nil: "allSettled an i [] = []"
  by (simp add: allSettled_def)

lemma allSettled_Cons: "allSettled an i (p # ps) = an i p # allSettled an (Suc i) ps"
  by (simp add: allSettled_def upt_conv_Cons del: upt_Suc)

lemma allSettled_append:
  "allSettled an i (a @ b) = allSettled an i a @ allSettled an (i + length a) b"
  by (induction a arbitrary: i) (simp_all add: allSettled_Nil allSettled_Cons)

lemma allSettled_nth: "allSettled an i ps = map (\<lambda>k. an (i + k) (ps ! k)) [0 ..< length ps]"
  by (rule nth_equalityI) (simp_all add: allSettled_def)

lemma allSettled_itemOutcomes: "allSettled an 0 ps = itemOutcomes an ps"
  by (simp add: allSettled_nth itemOutcomes_def)

lemma fulfilled_append: "fulfilled (a @ b) = fulfilled a @ fulfilled b"
  by (induction a rule: fulfilled.induct) simp_all

lemma rejected_append: "rejected (a @ b) = rejected a @ rejected b"
  by (induction a rule: rejected.induct) simp_all

lemma length_fulfilled_rejected: "length (fulfilled os) + length (rejected os) = length os"
  by (induction os rule: fulfilled.induct) simp_all

lemma set_fulfilled: "set (fulfilled os) = {v. Inr v \<in> set os}"
  by (induction os rule: fulfilled.induct) auto

lemma set_rejected: "set (rejected os) = {e. Inl e \<in> set os}"
  by (induction os rule: rejected.induct) auto

lemma fulfilled_all_rejected: "(\<forall>out \<in> set os. isl out) \<Longrightarrow> fulfilled os = []"
  by (induction os rule: fulfilled.induct) simp_all

lemma concat_windowsOf: "0 < c \<Longrightarrow> concat (windowsOf c xs) = xs"
  by (induction c xs rule: windowsOf.induct) (subst windowsOf.simps, simp)

lemma windowsOf_sizes: "w \<in> set (windowsOf c xs) \<Longrightarrow> w \<noteq> [] \<and> length w \<le> c"
proof (induction c xs rule: windowsOf.induct)
  case (1 c xs)
  show ?case
  proof (cases "c = 0 \<or> xs = []")
    case True
    with "1.prems" show ?thesis by (simp add: windowsOf.simps)
  next
    case False
    with "1.prems" have "w = take c xs \<or> w \<in> set (windowsOf c (drop c xs))"
      by (subst (asm) windowsOf.simps) simp
    then show ?thesis using False "1.IH" by auto
  qed
qed

lemma windowsOf_full: "w \<in> set (butlast (windowsOf c xs)) \<Longrightarrow> length w = c"
proof (induction c xs rule: windowsOf.induct)
  case (1 c xs)
  show ?case
  proof (cases "c = 0 \<or> xs = []")
    case True
    with "1.prems" show ?thesis by (simp add: windowsOf.simps)
  next
    case False
    then have w: "windowsOf c xs = take c xs # windowsOf c (drop c xs)"
      by (subst windowsOf.simps) simp
    show ?thesis
    proof (cases "windowsOf c (drop c xs) = []")
      case True
      with w "1.prems" show ?thesis by simp
    next
      case ne: False
      then have "drop c xs \<noteq> []" by (auto simp: windowsOf.simps)
      then have len: "length (take c xs) = c" by simp
      from w ne "1.prems" have "w = take c xs \<or> w \<in> set (butlast (windowsOf c (drop c xs)))"
        by simp
      then show ?thesis using len "1.IH" False by auto
    qed
  qed
qed

lemma batchLoop_result:
  assumes "0 < c"
  shows "batchLoop c an ps i st =
     Some (st\<lparr>results := results st @ fulfilled (allSettled an i (drop i ps)),
              logged := logged st @ rejected (allSettled an i (drop i ps)),
              dispatched := dispatched st @ windowsOf c (drop i ps)\<rparr>)"
proof (induction "length ps - i" arbitrary: i st rule: less_induct)
  case less
  show ?case
  proof (cases "i < length ps")
    case False
    then show ?thesis
      by (subst batchLoop.simps) (simp add: allSettled_Nil windowsOf.simps)
  next
    case True
    let ?batch = "take c (drop i ps)"
    let ?st' = "collect (allSettled an i ?batch) (st\<lparr>dispatched := dispatched st @ [?batch]\<rparr>)"
    from True assms have m: "length ps - (i + c) < length ps - i" by simp
    have step: "batchLoop c an ps i st = batchLoop c an ps (i + c) ?st'"
      using True by (subst batchLoop.simps) (simp add: sliceArray_def Let_def)
    have split: "drop i ps = ?batch @ drop (i + c) ps"
      by (metis append_take_drop_id drop_drop add.commute)
    have rest: "allSettled an (i + length ?batch) (drop (i + c) ps) = allSettled an (i + c) (drop (i + c) ps)"
    proof (cases "i + c \<le> length ps")
      case True
      then have "length ?batch = c" by simp
      then show ?thesis by simp
    next
      case False
      then show ?thesis by (simp add: allSettled_Nil)
    qed
    have outs: "allSettled an i (drop i ps) =
        allSettled an i ?batch @ allSettled an (i + c) (drop (i + c) ps)"
      by (subst split, subst allSettled_append, subst rest) simp
    have ne: "drop i ps \<noteq> []" using True by simp
    have wins: "windowsOf c (drop i ps) = ?batch # windowsOf c (drop (i + c) ps)"
      using assms ne by (subst windowsOf.simps) (simp add: add.commute)
    show ?thesis
      unfolding step less.hyps [OF m] outs wins
      by (simp add: collect_eq fulfilled_append rejected_append)
  qed
qed

lemma batchAnalyzeWith_result:
  assumes "0 < c"
  shows "batchAnalyzeWith c an ps =
     Some \<lparr> results = fulfilled (itemOutcomes an ps), logged = rejected (itemOutcomes an ps),
            dispatched = windowsOf c ps \<rparr>"
  by (simp add: batchAnalyzeWith_def batchLoop_result [OF assms] allSettled_itemOutcomes)

lemma length_rejected: "length (rejected os) = length (filter isl os)"
  by (induction os rule: rejected.induct) simp_all

lemma length_fulfilled: "length (fulfilled os) = length (filter (\<lambda>out. \<not> isl out) os)"
  by (induction os rule: fulfilled.induct) simp_all

lemma fulfilled_map: "map Inr (fulfilled (map f ks)) = map f (filter (\<lambda>k. \<not> isl (f k)) ks)"
proof (induction ks)
  case Nil
  then show ?case by simp
next
  case (Cons k ks)
  then show ?case by (cases "f k") simp_all
qed

lemma itemOutcomes_mem: "out \<in> set (itemOutcomes an ps) \<longleftrightarrow> (\<exists>k < length ps. an k (ps ! k) = out)"
  by (auto simp: itemOutcomes_def)

lemma windows_2_of_5: "length xs = 5 \<Longrightarrow> map length (windowsOf 2 xs) = [2, 2, 1]"
proof -
  assume "length xs = 5"
  then obtain a b c d e where "xs = [a, b, c, d, e]"
    by (auto simp: length_Suc_conv eval_nat_numeral)
  then show ?thesis by (simp add: windowsOf.simps)
qed

lemma getMaxConcurrentRequests_value: "getMaxConcurrentRequests = 3"
  by (simp add: getMaxConcurrentRequests_def DEFAULT_MAX_CONCURRENT_REQUESTS_def)

text \<open>With a window size of 0 the loop does not return on a non-empty batch.\<close>

lemma batchLoop_zero_Some:
  assumes "batchLoop c an ps i st = Some y"
  shows "0 < c \<or> \<not> i < length ps"
proof (rule batchLoop.raw_induct [where P = "\<lambda>c an ps i st y. 0 < c \<or> \<not> i < length ps", OF _ assms])
  fix f c an ps i st y
  assume ih: "\<And>c an ps i st y. f c an ps i st = Some y \<Longrightarrow> 0 < c \<or> \<not> i < length (ps :: jsstring list)"
    and body: "(if i < length ps
      then (let batch = sliceArray ps i (i + c); batchResults = allSettled an i batch
            in f c an ps (i + c) (collect batchResults (st\<lparr>dispatched := dispatched st @ [batch]\<rparr>)))
      else Some st) = Some y"
  show "0 < c \<or> \<not> i < length ps"
  proof (cases "i < length ps")
    case True
    with body have "f c an ps (i + c)
        (collect (allSettled an i (sliceArray ps i (i + c))) (st\<lparr>dispatched := dispatched st @ [sliceArray ps i (i + c)]\<rparr>)) = Some y"
      by (simp add: Let_def)
    from ih [OF this] True show ?thesis by (cases c) simp_all
  next
    case False
    then show ?thesis by simp
  qed
qed

lemma batchLoop_zero_diverges: "i < length ps \<Longrightarrow> batchLoop 0 an ps i st = None"
  using batchLoop_zero_Some [of 0 an ps i st] by (cases "batchLoop 0 an ps i st") auto

text \<open>
  C1. For every positive window size, every list of paths and every behaviour of the single
  analyses, batch analysis returns. The windows it dispatches are consecutive pieces of the
  input: concatenated they give the input, each is non-empty and no longer than the window
  size, and all but the last have exactly the window size. Every rejection is logged, in input
  order, and no rejection makes the batch fail; the returned list holds exactly the values of
  the items that were fulfilled, so the returned and the logged items together are as many
  as the inputs, and when every item fails the returned list is empty. With window size 2
  and 5 inputs the windows have the sizes 2, 2, 1, and when exactly one of 5 items fails
  the returned list has length 4. The client itself runs the loop with the compiled-in
  window size 3.
\<close>

theorem batchAnalyze_windows_and_failures:
  assumes "0 < c"
  shows "\<exists>st. batchAnalyzeWith c analyzeImage imagePaths = Some st \<and>
     concat (dispatched st) = imagePaths \<and>
     (\<forall>w \<in> set (dispatched st). w \<noteq> [] \<and> length w \<le> c) \<and>
     (\<forall>w \<in> set (butlast (dispatched st)). length w = c) \<and>
     logged st = rejected (itemOutcomes analyzeImage imagePaths) \<and>
     set (results st) = {v. \<exists>k < length imagePaths. analyzeImage k (imagePaths ! k) = Inr v} \<and>
     length (results st) + length (logged st) = length imagePaths \<and>
     ((\<forall>k < length imagePaths. isl (analyzeImage k (imagePaths ! k))) \<longrightarrow> results st = []) \<and>
     (c = 2 \<and> length imagePaths = 5 \<longrightarrow> map length (dispatched st) = [2, 2, 1]) \<and>
     (length imagePaths = 5 \<and> length (filter isl (itemOutcomes analyzeImage imagePaths)) = 1
        \<longrightarrow> length (results st) = 4) \<and>
     batchAnalyze analyzeImage imagePaths = batchAnalyzeWith 3 analyzeImage imagePaths"
proof -
  let ?os = "itemOutcomes analyzeImage imagePaths"
  let ?st = "\<lparr> results = fulfilled ?os, logged = rejected ?os, dispatched = windowsOf c imagePaths \<rparr>"
  have len: "length ?os = length imagePaths" by (simp add: itemOutcomes_def)
  have sum: "length (fulfilled ?os) + length (rejected ?os) = length imagePaths"
    using length_fulfilled_rejected [of ?os] len by simp
  show ?thesis
  proof (intro exI [of _ ?st] conjI impI)
    show "batchAnalyzeWith c analyzeImage imagePaths = Some ?st"
      by (rule batchAnalyzeWith_result [OF assms])
    show "concat (dispatched ?st) = imagePaths"
      using assms by (simp add: concat_windowsOf)
    show "\<forall>w \<in> set (dispatched ?st). w \<noteq> [] \<and> length w \<le> c"
      using windowsOf_sizes [of _ c imagePaths] by simp
    show "\<forall>w \<in> set (butlast (dispatched ?st)). length w = c"
      using windowsOf_full [of _ c imagePaths] by simp
    show "logged ?st = rejected ?os" by simp
    show "set (results ?st) = {v. \<exists>k < length imagePaths. analyzeImage k (imagePaths ! k) = Inr v}"
      by (simp add: set_fulfilled itemOutcomes_mem)
    show "length (results ?st) + length (logged ?st) = length imagePaths"
      using sum by simp
    show "results ?st = []" if "\<forall>k < length imagePaths. isl (analyzeImage k (imagePaths ! k))"
    proof -
      from that have "\<forall>out \<in> set ?os. isl out" by (auto simp: itemOutcomes_mem)
      then show ?thesis by (simp add: fulfilled_all_rejected)
    qed
    show "map length (dispatched ?st) = [2, 2, 1]" if "c = 2 \<and> length imagePaths = 5"
      using that by (simp add: windows_2_of_5)
    show "length (results ?st) = 4"
      if "length imagePaths = 5 \<and> length (filter isl ?os) = 1"
      using that sum by (simp add: length_rejected)
    show "batchAnalyze analyzeImage imagePaths = batchAnalyzeWith 3 analyzeImage imagePaths"
      by (simp add: batchAnalyze_def getMaxConcurrentRequests_value)
  qed
qed

theorem batchAnalyze_windows_and_failures_witness:
  "map_option (\<lambda>st. (map length (dispatched st), length (results st), logged st))
     (batchAnalyzeWith 2 thirdFails fivePaths) = Some ([2, 2, 1], 4, [exampleError])"
proof -
  have c: "(0::nat) < 2" by simp
  have l: "length fivePaths = 5" by (simp add: fivePaths_def)
  have os: "itemOutcomes thirdFails fivePaths =
      [Inr (exampleResult \<lparr> description := ascii ''a.png'' \<rparr>),
       Inr (exampleResult \<lparr> description := ascii ''b.png'' \<rparr>),
       Inl exampleError,
       Inr (exampleResult \<lparr> description := ascii ''d.png'' \<rparr>),
       Inr (exampleResult \<lparr> description := ascii ''e.png'' \<rparr>)]"
    by code_simp
  have one: "length (filter isl (itemOutcomes thirdFails fivePaths)) = 1"
    by (simp add: os)
  from batchAnalyze_windows_and_failures [OF c, of thirdFails fivePaths]
  obtain st where a: "batchAnalyzeWith 2 thirdFails fivePaths = Some st \<and>
     concat (dispatched st) = fivePaths \<and>
     (\<forall>w \<in> set (dispatched st). w \<noteq> [] \<and> length w \<le> 2) \<and>
     (\<forall>w \<in> set (butlast (dispatched st)). length w = 2) \<and>
     logged st = rejected (itemOutcomes thirdFails fivePaths) \<and>
     set (results st) = {v. \<exists>k < length fivePaths. thirdFails k (fivePaths ! k) = Inr v} \<and>
     length (results st) + length (logged st) = length fivePaths \<and>
     ((\<forall>k < length fivePaths. isl (thirdFails k (fivePaths ! k))) \<longrightarrow> results st = []) \<and>
     ((2::nat) = 2 \<and> length fivePaths = 5 \<longrightarrow> map length (dispatched st) = [2, 2, 1]) \<and>
     (length fivePaths = 5 \<and> length (filter isl (itemOutcomes thirdFails fivePaths)) = 1
        \<longrightarrow> length (results st) = 4) \<and>
     batchAnalyze thirdFails fivePaths = batchAnalyzeWith 3 thirdFails fivePaths" ..
  from a have st: "batchAnalyzeWith 2 thirdFails fivePaths = Some st" by (elim conjE)
  from a have lg: "logged st = rejected (itemOutcomes thirdFails fivePaths)" by (elim conjE)
  from a have "(2::nat) = 2 \<and> length fivePaths = 5 \<longrightarrow> map length (dispatched st) = [2, 2, 1]"
    by (elim conjE)
  with l have w: "map length (dispatched st) = [2, 2, 1]" by simp
  from a have "length fivePaths = 5 \<and> length (filter isl (itemOutcomes thirdFails fivePaths)) = 1
        \<longrightarrow> length (results st) = 4"
    by (elim conjE)
  with l one have r: "length (results st) = 4" by simp
  from lg have "logged st = [exampleError]" by (simp add: os)
  with st w r show ?thesis by simp
qed

text \<open>
  C10. The list that batch analysis returns is the list of the fulfilled values in input
  order: read as outcomes, it is the outcomes of the successful positions in increasing order
  of position, one value for each successful item. This holds for the client's window size
  and for every positive window size, so the result does not depend on where the windows end.
\<close>

theorem batchAnalyze_preserves_order:
  "(\<exists>st. batchAnalyze analyzeImage imagePaths = Some st \<and>
      results st = fulfilled (itemOutcomes analyzeImage imagePaths) \<and>
      map Inr (results st) =
        map (\<lambda>k. analyzeImage k (imagePaths ! k))
          (filter (\<lambda>k. \<not> isl (analyzeImage k (imagePaths ! k))) [0 ..< length imagePaths]) \<and>
      length (results st) =
        length (filter (\<lambda>k. \<not> isl (analyzeImage k (imagePaths ! k))) [0 ..< length imagePaths])) \<and>
   (0 < c \<longrightarrow>
      (\<exists>st. batchAnalyzeWith c analyzeImage imagePaths = Some st \<and>
         results st = fulfilled (itemOutcomes analyzeImage imagePaths)))"
proof (intro conjI impI)
  let ?os = "itemOutcomes analyzeImage imagePaths"
  let ?st = "\<lparr> results = fulfilled ?os, logged = rejected ?os, dispatched = windowsOf 3 imagePaths \<rparr>"
  have m: "map Inr (fulfilled ?os) =
       map (\<lambda>k. analyzeImage k (imagePaths ! k))
         (filter (\<lambda>k. \<not> isl (analyzeImage k (imagePaths ! k))) [0 ..< length imagePaths])"
    unfolding itemOutcomes_def by (rule fulfilled_map)
  have three: "(0::nat) < 3" by simp
  show "\<exists>st. batchAnalyze analyzeImage imagePaths = Some st \<and>
      results st = fulfilled ?os \<and>
      map Inr (results st) =
        map (\<lambda>k. analyzeImage k (imagePaths ! k))
          (filter (\<lambda>k. \<not> isl (analyzeImage k (imagePaths ! k))) [0 ..< length imagePaths]) \<and>
      length (results st) =
        length (filter (\<lambda>k. \<not> isl (analyzeImage k (imagePaths ! k))) [0 ..< length imagePaths])"
  proof (intro exI [of _ ?st] conjI)
    show "batchAnalyze analyzeImage imagePaths = Some ?st"
      unfolding batchAnalyze_def getMaxConcurrentRequests_value
      by (rule batchAnalyzeWith_result [OF three])
    show "results ?st = fulfilled ?os" by simp
    show "map Inr (results ?st) =
       map (\<lambda>k. analyzeImage k (imagePaths ! k))
         (filter (\<lambda>k. \<not> isl (analyzeImage k (imagePaths ! k))) [0 ..< length imagePaths])"
      using m by simp
    show "length (results ?st) =
       length (filter (\<lambda>k. \<not> isl (analyzeImage k (imagePaths ! k))) [0 ..< length imagePaths])"
      using arg_cong [OF m, of length] by simp
  qed
  show "\<exists>st. batchAnalyzeWith c analyzeImage imagePaths = Some st \<and> results st = fulfilled ?os"
    if "0 < c"
    using batchAnalyzeWith_result [OF that, of analyzeImage imagePaths] by simp
qed

theorem batchAnalyze_preserves_order_witness:
  "map_option (\<lambda>st. map description (results st)) (batchAnalyze thirdFails fivePaths) =
     Some [ascii ''a.png'', ascii ''b.png'', ascii ''d.png'', ascii ''e.png''] \<and>
   map_option (\<lambda>st. map description (results st)) (batchAnalyzeWith 2 thirdFails fivePaths) =
     Some [ascii ''a.png'', ascii ''b.png'', ascii ''d.png'', ascii ''e.png'']"
proof -
  have os: "map description (fulfilled (itemOutcomes thirdFails fivePaths)) =
      [ascii ''a.png'', ascii ''b.png'', ascii ''d.png'', ascii ''e.png'']"
    by code_simp
  have two: "(0::nat) < 2" by simp
  from batchAnalyze_preserves_order [of thirdFails fivePaths 2]
  obtain st where "batchAnalyze thirdFails fivePaths = Some st"
    and "results st = fulfilled (itemOutcomes thirdFails fivePaths)"
    by (elim conjE exE)
  with os have a: "map_option (\<lambda>st. map description (results st)) (batchAnalyze thirdFails fivePaths) =
     Some [ascii ''a.png'', ascii ''b.png'', ascii ''d.png'', ascii ''e.png'']"
    by simp
  from batchAnalyze_preserves_order [of thirdFails fivePaths 2] two
  obtain st2 where "batchAnalyzeWith 2 thirdFails fivePaths = Some st2"
    and "results st2 = fulfilled (itemOutcomes thirdFails fivePaths)"
    by (elim conjE exE impE) simp_all
  with os have b: "map_option (\<lambda>st. map description (results st)) (batchAnalyzeWith 2 thirdFails fivePaths) =
     Some [ascii ''a.png'', ascii ''b.png'', ascii ''d.png'', ascii ''e.png'']"
    by simp
  from a b show ?thesis by simp
qed


end
